theory Spec2Isabelle
  imports Complex_Main
begin

section \<open>Python values used by the telemetry core\<close>

text \<open>
  Strings are HOL strings read as ASCII text: adapter responses are produced by
  \<^verbatim>\<open>raw.decode("ascii", errors="ignore")\<close> and every command the poller sends is an
  ASCII literal of \<^verbatim>\<open>PID_TABLE\<close>. Python's \<^verbatim>\<open>float\<close> is modelled by \<^typ>\<open>real\<close>:
  arithmetic is exact, and the one place where binary64 raises (an integer too large
  to convert) is a branch of the model.
\<close>

datatype py_error =
    ConnectionError string
  | TimeoutError
  | UnicodeEncodeError
  | ValueError string
  | IndexError
  | OverflowError
  | ConnectionResetError string

subsection \<open>String primitives\<close>

definition CR :: char where
  "CR = CHR 0x0D"

definition LF :: char where
  "LF = CHR 0x0A"

text \<open>A character that \<^verbatim>\<open>encode("ascii")\<close> accepts and \<^verbatim>\<open>decode("ascii")\<close> yields.\<close>

definition is_ascii :: "char \<Rightarrow> bool" where
  "is_ascii c \<longleftrightarrow> \<not> digit7 c"

definition py_isspace :: "char \<Rightarrow> bool" where
  "py_isspace c \<longleftrightarrow>
     c \<in> set [CHR 0x09, CHR 0x0A, CHR 0x0B, CHR 0x0C, CHR 0x0D,
                CHR 0x1C, CHR 0x1D, CHR 0x1E, CHR 0x1F, CHR '' '']"

definition lstrip :: "string \<Rightarrow> string" where
  "lstrip s = dropWhile py_isspace s"

definition rstrip :: "string \<Rightarrow> string" where
  "rstrip s = rev (dropWhile py_isspace (rev s))"

definition strip :: "string \<Rightarrow> string" where
  "strip s = rstrip (lstrip s)"

text \<open>
  The whitespace that \<^verbatim>\<open>int\<close> and \<^verbatim>\<open>float\<close> skip around a literal given as an ASCII
  string is that of C's \<^verbatim>\<open>isspace\<close>: unlike \<^verbatim>\<open>str.strip\<close>, they do not skip the
  separators \<^verbatim>\<open>0x1C\<close> to \<^verbatim>\<open>0x1F\<close>.
\<close>

definition c_isspace :: "char \<Rightarrow> bool" where
  "c_isspace c \<longleftrightarrow> c \<in> set [CHR 0x09, CHR 0x0A, CHR 0x0B, CHR 0x0C, CHR 0x0D, CHR '' '']"

definition c_strip :: "string \<Rightarrow> string" where
  "c_strip s = rev (dropWhile c_isspace (rev (dropWhile c_isspace s)))"

definition upper_char :: "char \<Rightarrow> char" where
  "upper_char c =
     (case map_of (zip ''abcdefghijklmnopqrstuvwxyz'' ''ABCDEFGHIJKLMNOPQRSTUVWXYZ'') c of
        Some u \<Rightarrow> u
      | None \<Rightarrow> c)"


definition upper :: "string \<Rightarrow> string" where
  "upper s = map upper_char s"


text \<open>\<^verbatim>\<open>s.replace(old, new)\<close> for a one-character \<^verbatim>\<open>old\<close>.\<close>

definition replace_char :: "char \<Rightarrow> string \<Rightarrow> string \<Rightarrow> string" where
  "replace_char old new s = concat (map (\<lambda>c. if c = old then new else [c]) s)"

text \<open>\<^verbatim>\<open>s.split(sep)\<close> for a one-character separator: empty fields are kept.\<close>

fun split_on :: "char \<Rightarrow> string \<Rightarrow> string list" where
  "split_on sep [] = [[]]"
| "split_on sep (c # cs) =
     (if c = sep then [] # split_on sep cs
      else (case split_on sep cs of
              [] \<Rightarrow> [[c]]
            | l # ls \<Rightarrow> (c # l) # ls))"

text \<open>\<^verbatim>\<open>s.split()\<close>: fields between runs of whitespace, no empty field.\<close>

fun split_ws_from :: "string \<Rightarrow> string \<Rightarrow> string list" where
  "split_ws_from cur [] = (if cur = [] then [] else [cur])"
| "split_ws_from cur (c # cs) =
     (if py_isspace c then (if cur = [] then split_ws_from [] cs else cur # split_ws_from [] cs)
      else split_ws_from (cur @ [c]) cs)"

definition split_ws :: "string \<Rightarrow> string list" where
  "split_ws s = split_ws_from [] s"

definition startswith :: "string \<Rightarrow> string \<Rightarrow> bool" where
  "startswith s p \<longleftrightarrow> take (length p) s = p"

subsection \<open>\<^verbatim>\<open>int(text, base)\<close> and \<^verbatim>\<open>format(n, "02X")\<close>\<close>

fun index_from :: "nat \<Rightarrow> char \<Rightarrow> string \<Rightarrow> nat option" where
  "index_from n c [] = None"
| "index_from n c (d # ds) = (if c = d then Some n else index_from (n + 1) c ds)"

definition digit_val :: "char \<Rightarrow> nat option" where
  "digit_val c =
     (case index_from 0 c ''0123456789abcdefghijklmnopqrstuvwxyz'' of
        Some n \<Rightarrow> Some n
      | None \<Rightarrow> index_from 10 c ''ABCDEFGHIJKLMNOPQRSTUVWXYZ'')"

text \<open>
  The digits of an integer literal: a single underscore may stand between two digits,
  and every digit is below the base.
\<close>

fun digits_from :: "nat \<Rightarrow> nat \<Rightarrow> bool \<Rightarrow> string \<Rightarrow> nat option" where
  "digits_from base acc after_us [] = (if after_us then None else Some acc)"
| "digits_from base acc after_us (c # cs) =
     (if c = CHR ''_'' then (if after_us then None else digits_from base acc True cs)
      else (case digit_val c of
              None \<Rightarrow> None
            | Some d \<Rightarrow> if d < base then digits_from base (acc * base + d) False cs else None))"

definition py_digits :: "nat \<Rightarrow> string \<Rightarrow> nat option" where
  "py_digits base s =
     (case s of
        [] \<Rightarrow> None
      | c # cs \<Rightarrow> if c = CHR ''_'' then None else digits_from base 0 False s)"

definition strip_radix_prefix :: "nat \<Rightarrow> string \<Rightarrow> string" where
  "strip_radix_prefix base s =
     (case s of
        a # b # rest \<Rightarrow>
          if base = 16 \<and> a = CHR ''0'' \<and> (b = CHR ''x'' \<or> b = CHR ''X'')
          then (case rest of
                  [] \<Rightarrow> rest
                | u # rest' \<Rightarrow> if u = CHR ''_'' then rest' else rest)
          else s
      | _ \<Rightarrow> s)"

text \<open>
  The limit on the length of a decimal literal: \<^verbatim>\<open>int\<close> raises \<^verbatim>\<open>ValueError\<close> for more
  than \<^verbatim>\<open>sys.get_int_max_str_digits()\<close> digits (4300 unless the interpreter is
  configured otherwise) when the base is not a power of two.
\<close>

definition int_max_str_digits :: nat where
  "int_max_str_digits = 4300"

definition too_many_digits :: "nat \<Rightarrow> string \<Rightarrow> bool" where
  "too_many_digits base s \<longleftrightarrow>
     base = 10 \<and> int_max_str_digits < length (filter (\<lambda>c. c \<noteq> CHR ''_'') s)"

text \<open>
  \<^verbatim>\<open>int(text, base)\<close> for base 10 and 16 and an ASCII \<^verbatim>\<open>text\<close>: surrounding
  whitespace, one sign, for base 16 an optional \<^verbatim>\<open>0x\<close>, then the digits.
  \<^const>\<open>None\<close> is Python's \<^verbatim>\<open>ValueError\<close>.
\<close>

definition int_digits :: "nat \<Rightarrow> string \<Rightarrow> nat option" where
  "int_digits base s =
     (let body = strip_radix_prefix base s
      in if too_many_digits base body then None else py_digits base body)"

definition py_int :: "nat \<Rightarrow> string \<Rightarrow> int option" where
  "py_int base text =
     (case c_strip text of
        [] \<Rightarrow> None
      | c # cs \<Rightarrow>
          if c = CHR ''-'' then map_option (\<lambda>n. - int n) (int_digits base cs)
          else if c = CHR ''+'' then map_option int (int_digits base cs)
          else map_option int (int_digits base (c # cs)))"

definition hex_char :: "nat \<Rightarrow> char" where
  "hex_char d = ''0123456789ABCDEF'' ! d"

fun hex_digits :: "nat \<Rightarrow> string" where
  "hex_digits n = (if n < 16 then [hex_char n] else hex_digits (n div 16) @ [hex_char (n mod 16)])"

text \<open>\<^verbatim>\<open>f"{n:02X}"\<close>: upper-case hexadecimal, zero-padded to two characters, sign first.\<close>

definition format_02X :: "int \<Rightarrow> string" where
  "format_02X n =
     (if n < 0 then CHR ''-'' # hex_digits (nat (- n))
      else (let ds = hex_digits (nat n) in if length ds < 2 then CHR ''0'' # ds else ds))"

section \<open>Response parser\<close>

definition CONTROL_LINES :: "string list" where
  "CONTROL_LINES =
     [''OK'', ''NO DATA'', ''STOPPED'', ''UNABLE TO CONNECT'', ''BUS INIT...ERROR'', ''ERROR'', ''?'']"

text \<open>\<^verbatim>\<open>HEX_LINE_RE.fullmatch(line)\<close> for \<^verbatim>\<open>^[0-9A-F ]+$\<close>.\<close>

definition hex_line :: "string \<Rightarrow> bool" where
  "hex_line line \<longleftrightarrow> line \<noteq> [] \<and> (\<forall>c \<in> set line. c \<in> set ''0123456789ABCDEF '')"

fun pairs_of :: "string \<Rightarrow> string list" where
  "pairs_of (a # b # rest) = [a, b] # pairs_of rest"
| "pairs_of rest = []"

definition split_hex_pairs :: "string \<Rightarrow> string list" where
  "split_hex_pairs v =
     (let compact = replace_char (CHR '' '') [] v
      in if length compact mod 2 \<noteq> 0 then [] else pairs_of compact)"

text \<open>\<^verbatim>\<open>[int(token, 16) for token in tokens]\<close>; \<^const>\<open>None\<close> when a token raises.\<close>

fun hex_values :: "string list \<Rightarrow> int list option" where
  "hex_values [] = Some []"
| "hex_values (t # ts) =
     (case py_int 16 t of
        None \<Rightarrow> None
      | Some v \<Rightarrow> (case hex_values ts of None \<Rightarrow> None | Some vs \<Rightarrow> Some (v # vs)))"

text \<open>
  One iteration of the loop of \<^verbatim>\<open>parse_pid_bytes\<close>: \<^const>\<open>None\<close> is \<^verbatim>\<open>continue\<close>,
  \<open>Some payload\<close> is \<^verbatim>\<open>return payload\<close>.
\<close>

definition line_payload :: "string \<Rightarrow> string \<Rightarrow> string \<Rightarrow> string \<Rightarrow> int list option" where
  "line_payload expected_mode expected_pid command_upper raw_line =
     (let line = replace_char (CHR ''>'') [] (upper (strip raw_line))
      in if line = [] \<or> line = command_upper \<or> startswith line ''SEARCHING'' then None
         else if line \<in> set CONTROL_LINES then None
         else if \<not> hex_line line then None
         else (let tokens = (if CHR '' '' \<in> set line then split_ws line else split_hex_pairs line)
               in if length tokens < 2 then None
                  else if tokens ! 0 \<noteq> expected_mode \<or> tokens ! 1 \<noteq> expected_pid then None
                  else hex_values (drop 2 tokens)))"

fun scan_lines :: "string \<Rightarrow> string \<Rightarrow> string \<Rightarrow> string list \<Rightarrow> int list option" where
  "scan_lines em ep cu [] = None"
| "scan_lines em ep cu (raw_line # rest) =
     (case line_payload em ep cu raw_line of
        Some payload \<Rightarrow> Some payload
      | None \<Rightarrow> scan_lines em ep cu rest)"

definition response_lines :: "string \<Rightarrow> string list" where
  "response_lines response = split_on LF (replace_char CR [LF] response)"

definition parse_pid_bytes :: "string \<Rightarrow> string \<Rightarrow> py_error + int list option" where
  "parse_pid_bytes command response =
     (case py_int 16 (take 2 command) of
        None \<Rightarrow> Inl (ValueError (take 2 command))
      | Some mode \<Rightarrow>
          Inr (scan_lines (format_02X (mode + 0x40)) (upper (take 2 (drop 2 command)))
                 (upper command) (response_lines response)))"

section \<open>PID registry\<close>

definition bind_err :: "'e + 'a \<Rightarrow> ('a \<Rightarrow> 'e + 'b) \<Rightarrow> 'e + 'b" where
  "bind_err m f = (case m of Inl e \<Rightarrow> Inl e | Inr x \<Rightarrow> f x)"

text \<open>\<^verbatim>\<open>d[i]\<close> for \<open>i \<ge> 0\<close>: \<^verbatim>\<open>IndexError\<close> beyond the end.\<close>

definition item :: "'a list \<Rightarrow> nat \<Rightarrow> py_error + 'a" where
  "item d i = (if i < length d then Inr (d ! i) else Inl IndexError)"

text \<open>
  Conversion of an \<^verbatim>\<open>int\<close> to \<^verbatim>\<open>float\<close>: Python raises \<^verbatim>\<open>OverflowError\<close> when the
  integer rounds beyond the largest binary64 value.
\<close>

definition float_overflow_bound :: int where
  "float_overflow_bound = 2 ^ 1024 - 2 ^ 970"

definition float_of_int :: "int \<Rightarrow> py_error + real" where
  "float_of_int n = (if float_overflow_bound \<le> \<bar>n\<bar> then Inl OverflowError else Inr (of_int n))"

record PIDDefinition =
  command :: string
  bytes_needed :: nat
  decoder :: "int list \<Rightarrow> py_error + real"

definition decode_rpm :: "int list \<Rightarrow> py_error + real" where
  "decode_rpm d =
     bind_err (item d 0) (\<lambda>a. bind_err (item d 1) (\<lambda>b.
       bind_err (float_of_int (a * 256 + b)) (\<lambda>x. Inr (x / 4))))"

definition decode_identity :: "int list \<Rightarrow> py_error + real" where
  "decode_identity d = bind_err (item d 0) float_of_int"

definition decode_offset40 :: "int list \<Rightarrow> py_error + real" where
  "decode_offset40 d = bind_err (item d 0) (\<lambda>a. float_of_int (a - 40))"

definition decode_percent :: "int list \<Rightarrow> py_error + real" where
  "decode_percent d = bind_err (item d 0) (\<lambda>a. bind_err (float_of_int a) (\<lambda>x. Inr (x * 100 / 255)))"

definition PID_TABLE :: "(string \<times> PIDDefinition) list" where
  "PID_TABLE =
     [(''rpm'', \<lparr>command = ''010C'', bytes_needed = 2, decoder = decode_rpm\<rparr>),
      (''speed_kmh'', \<lparr>command = ''010D'', bytes_needed = 1, decoder = decode_identity\<rparr>),
      (''coolant_c'', \<lparr>command = ''0105'', bytes_needed = 1, decoder = decode_offset40\<rparr>),
      (''throttle_pct'', \<lparr>command = ''0111'', bytes_needed = 1, decoder = decode_percent\<rparr>),
      (''engine_load_pct'', \<lparr>command = ''0104'', bytes_needed = 1, decoder = decode_percent\<rparr>),
      (''fuel_level_pct'', \<lparr>command = ''012F'', bytes_needed = 1, decoder = decode_percent\<rparr>),
      (''intake_c'', \<lparr>command = ''010F'', bytes_needed = 1, decoder = decode_offset40\<rparr>)]"

subsection \<open>Rounding\<close>

definition round_half_even :: "real \<Rightarrow> int" where
  "round_half_even y =
     (let f = \<lfloor>y\<rfloor>; d = y - of_int f
      in if d < 1 / 2 then f else if 1 / 2 < d then f + 1 else if even f then f else f + 1)"

text \<open>\<^verbatim>\<open>round(x, ndigits)\<close>: the nearest decimal with \<open>ndigits\<close> places, ties to even.\<close>

definition py_round :: "real \<Rightarrow> nat \<Rightarrow> real" where
  "py_round x ndigits = of_int (round_half_even (x * 10 ^ ndigits)) / 10 ^ ndigits"

text \<open>
  The body of the loop over \<^verbatim>\<open>PID_TABLE\<close> in \<^verbatim>\<open>_run_obd\<close>, after \<^verbatim>\<open>send\<close> has
  returned: \<open>Inr None\<close> is \<^verbatim>\<open>metrics[key] = None\<close>, \<open>Inl\<close> an exception that leaves
  the loop.
\<close>

definition decode_metric :: "PIDDefinition \<Rightarrow> string \<Rightarrow> py_error + real option" where
  "decode_metric definition response =
     bind_err (parse_pid_bytes (command definition) response) (\<lambda>payload.
       case payload of
         None \<Rightarrow> Inr None
       | Some bytes \<Rightarrow>
           if length bytes < bytes_needed definition then Inr None
           else bind_err (decoder definition (take (bytes_needed definition) bytes))
                  (\<lambda>raw_value. Inr (Some (py_round raw_value 1))))"

section \<open>Telemetry store\<close>

text \<open>
  The dictionary \<^verbatim>\<open>TelemetryStore._snapshot\<close>. A metric key maps to \<open>Some None\<close>
  while its value is absent and to \<open>Some (Some v)\<close> once it has one; a string that
  is no metric key maps to \<^const>\<open>None\<close>. The reading of the clock taken by
  \<^verbatim>\<open>utc_now_iso()\<close> is the argument \<open>now\<close> of each mutation. The lock makes each
  operation atomic, which is how the model runs them.
\<close>

record adapter_addr =
  host :: string
  port :: int

record telemetry_state =
  connected :: bool
  updated_at :: "string option"
  last_error :: "string option"
  adapter :: adapter_addr
  metrics :: "string \<rightharpoonup> real option"

definition init_store :: "string \<Rightarrow> int \<Rightarrow> telemetry_state" where
  "init_store adapter_host adapter_port =
     \<lparr>connected = False, updated_at = None, last_error = None,
      adapter = \<lparr>host = adapter_host, port = adapter_port\<rparr>,
      metrics = map_of (map (\<lambda>(key, d). (key, None)) PID_TABLE @ [(''battery_v'', None)])\<rparr>"

definition set_connected :: "string \<Rightarrow> bool \<Rightarrow> string option \<Rightarrow> telemetry_state \<Rightarrow> telemetry_state" where
  "set_connected now c e s = s\<lparr>connected := c, last_error := e, updated_at := Some now\<rparr>"

text \<open>
  \<^verbatim>\<open>for key, value in metrics.items(): if key in metric_store: metric_store[key] = value\<close>,
  over the items of the argument in their order.
\<close>

fun store_items :: "(string \<times> real option) list \<Rightarrow> (string \<rightharpoonup> real option) \<Rightarrow> (string \<rightharpoonup> real option)" where
  "store_items [] metric_store = metric_store"
| "store_items ((key, v) # rest) metric_store =
     store_items rest (if metric_store key \<noteq> None then metric_store(key \<mapsto> v) else metric_store)"

definition update_metrics ::
  "string \<Rightarrow> (string \<times> real option) list \<Rightarrow> bool \<Rightarrow> string option \<Rightarrow> telemetry_state \<Rightarrow> telemetry_state" where
  "update_metrics now m c e s =
     s\<lparr>metrics := store_items m (metrics s), connected := c, last_error := e, updated_at := Some now\<rparr>"

section \<open>Simulation mode\<close>

text \<open>
  One draw of \<^verbatim>\<open>random.uniform\<close> per jittered metric; the model takes the six draws
  of a tick as a record and puts no bound on them.
\<close>

record sim_jitter =
  j_speed :: real
  j_rpm :: real
  j_load :: real
  j_throttle :: real
  j_coolant :: real
  j_intake :: real

text \<open>
  The dictionary that one iteration of \<^verbatim>\<open>_run_simulation\<close> passes to
  \<^verbatim>\<open>update_metrics\<close>, for the clock value \<open>t\<close> after its increment.
\<close>

definition sim_metrics :: "real \<Rightarrow> sim_jitter \<Rightarrow> (string \<times> real option) list" where
  "sim_metrics t j =
     (let speed = max 0 (min 220 (70 + sin t * 45 + j_speed j));
          rpm = max 700 (min 7000 (900 + speed * 34 + j_rpm j));
          load = max 4 (min 100 ((rpm / 7000) * 100 + j_load j));
          throttle = max 2 (min 100 ((speed / 220) * 90 + j_throttle j));
          coolant = max 65 (min 110 (88 + sin (t * 0.2) * 6 + j_coolant j));
          intake = max 10 (min 55 (25 + sin (t * 0.4) * 9 + j_intake j));
          fuel = max 5 (min 100 (78 - t * 0.05));
          voltage = max 12.1 (min 14.4 (13.2 + sin (t * 0.35) * 0.5))
      in [(''speed_kmh'', Some (py_round speed 1)),
          (''rpm'', Some (py_round rpm 1)),
          (''engine_load_pct'', Some (py_round load 1)),
          (''throttle_pct'', Some (py_round throttle 1)),
          (''coolant_c'', Some (py_round coolant 1)),
          (''intake_c'', Some (py_round intake 1)),
          (''fuel_level_pct'', Some (py_round fuel 1)),
          (''battery_v'', Some (py_round voltage 2))])"

text \<open>The value stored under a key is present and lies in a closed interval.\<close>

definition metric_within :: "(string \<rightharpoonup> real option) \<Rightarrow> string \<Rightarrow> real \<Rightarrow> real \<Rightarrow> bool" where
  "metric_within m k lo hi = (case m k of Some (Some v) \<Rightarrow> (lo \<le> v \<and> v \<le> hi) | _ \<Rightarrow> False)"

text \<open>The clamp range of each of the eight metrics, as the specification declares it.\<close>

definition sim_in_clamps :: "(string \<rightharpoonup> real option) \<Rightarrow> bool" where
  "sim_in_clamps m \<longleftrightarrow>
     metric_within m ''speed_kmh'' 0 220 \<and> metric_within m ''rpm'' 700 7000
     \<and> metric_within m ''coolant_c'' 65 110 \<and> metric_within m ''throttle_pct'' 0 100
     \<and> metric_within m ''engine_load_pct'' 0 100 \<and> metric_within m ''fuel_level_pct'' 0 100
     \<and> metric_within m ''intake_c'' 10 55 \<and> metric_within m ''battery_v'' 12.1 14.4"

text \<open>
  One iteration of the loop of \<^verbatim>\<open>_run_simulation\<close>; the loop runs once for each
  element of \<open>ticks\<close> (the clock reading and the jitter of that iteration) and ends
  when the stop event is set.
\<close>

definition simulation_tick :: "string \<times> sim_jitter \<Rightarrow> real \<times> telemetry_state \<Rightarrow> real \<times> telemetry_state" where
  "simulation_tick inp st =
     (case inp of (now, j) \<Rightarrow> case st of (t, s) \<Rightarrow>
        (let t' = t + 0.15 in (t', update_metrics now (sim_metrics t' j) True None s)))"

fun simulation_loop :: "(string \<times> sim_jitter) list \<Rightarrow> real \<times> telemetry_state \<Rightarrow> real \<times> telemetry_state" where
  "simulation_loop [] st = st"
| "simulation_loop (inp # rest) st = simulation_loop rest (simulation_tick inp st)"

definition run_simulation :: "string \<Rightarrow> (string \<times> sim_jitter) list \<Rightarrow> telemetry_state \<Rightarrow> real \<times> telemetry_state" where
  "run_simulation now ticks s = simulation_loop ticks (0, set_connected now True None s)"

section \<open>Configuration\<close>




















section \<open>Protocol client\<close>

text \<open>
  What the socket will do. A reader is the outcome of the \<open>i\<close>-th call of
  \<^verbatim>\<open>asyncio.wait_for(reader.read(256), timeout)\<close>: the timeout, the bytes read (no
  bytes when the peer has closed), or an exception that the read raises, such as the
  \<^verbatim>\<open>ConnectionResetError\<close> of a connection that is lost. A writer is the outcome of
  \<^verbatim>\<open>writer.write(payload)\<close> followed by \<^verbatim>\<open>await writer.drain()\<close> once \<open>i\<close> reads
  have been made: \<^const>\<open>None\<close> when the payload is sent, or the exception raised. A
  client holds its reader and its writer, both absent before \<^verbatim>\<open>connect()\<close> and after
  \<^verbatim>\<open>close()\<close>, and the index of the next read.
\<close>

datatype read_event = Timeout | Chunk string | Fault py_error

type_synonym link = "nat \<Rightarrow> read_event"

type_synonym sink = "nat \<Rightarrow> py_error option"

record client =
  reader :: "link option"
  writer :: "sink option"
  cursor :: nat

definition decode_ascii_ignore :: "string \<Rightarrow> string" where
  "decode_ascii_ignore raw = filter is_ascii raw"

definition NOT_CONNECTED :: string where
  "NOT_CONNECTED = ''OBD adapter socket is not connected.''"

definition SOCKET_CLOSED :: string where
  "SOCKET_CLOSED = ''OBD adapter closed the socket.''"

text \<open>
  The loop of \<^verbatim>\<open>_read_until_prompt\<close>. It has no bound of its own, so the result is
  an option: \<^const>\<open>None\<close> when the loop never ends.
\<close>

partial_function (option) read_loop ::
  "link \<Rightarrow> nat \<Rightarrow> string list \<Rightarrow> ((py_error + string) \<times> nat) option" where
  "read_loop l i chunks =
     (case l i of
        Timeout \<Rightarrow> Some (Inl TimeoutError, Suc i)
      | Fault e \<Rightarrow> Some (Inl e, Suc i)
      | Chunk raw \<Rightarrow>
          if raw = [] then Some (Inl (ConnectionError SOCKET_CLOSED), Suc i)
          else (let text = decode_ascii_ignore raw
                in if CHR ''>'' \<in> set text then Some (Inr (concat (chunks @ [text])), Suc i)
                   else read_loop l (Suc i) (chunks @ [text])))"

definition read_until_prompt :: "client \<Rightarrow> ((py_error + string) \<times> client) option" where
  "read_until_prompt c =
     (case reader c of
        None \<Rightarrow> Some (Inl (ConnectionError NOT_CONNECTED), c)
      | Some l \<Rightarrow>
          (case read_loop l (cursor c) [] of
             None \<Rightarrow> None
           | Some (r, i) \<Rightarrow> Some (r, c\<lparr>cursor := i\<rparr>)))"

definition send :: "client \<Rightarrow> string \<Rightarrow> ((py_error + string) \<times> client) option" where
  "send c cmd =
     (case writer c of
        None \<Rightarrow> Some (Inl (ConnectionError NOT_CONNECTED), c)
      | Some w \<Rightarrow>
          if \<not> list_all is_ascii (cmd @ [CR]) then Some (Inl UnicodeEncodeError, c)
          else (case w (cursor c) of
                  Some e \<Rightarrow> Some (Inl e, c)
                | None \<Rightarrow> read_until_prompt c))"

text \<open>A socket that delivers the listed events and then only one event for ever.\<close>

definition replay :: "read_event list \<Rightarrow> read_event \<Rightarrow> link" where
  "replay evs rest i = (if i < length evs then evs ! i else rest)"

text \<open>
  The kinds of read event: one after which the loop goes on (bytes, none of them the
  prompt once decoded), one that holds the prompt, and the text an event adds.
\<close>

definition prompt_less :: "read_event \<Rightarrow> bool" where
  "prompt_less ev =
     (case ev of
        Timeout \<Rightarrow> False
      | Fault e \<Rightarrow> False
      | Chunk raw \<Rightarrow> raw \<noteq> [] \<and> CHR ''>'' \<notin> set (decode_ascii_ignore raw))"

definition has_prompt :: "read_event \<Rightarrow> bool" where
  "has_prompt ev =
     (case ev of
        Timeout \<Rightarrow> False
      | Fault e \<Rightarrow> False
      | Chunk raw \<Rightarrow> CHR ''>'' \<in> set (decode_ascii_ignore raw))"

definition text_of :: "read_event \<Rightarrow> string" where
  "text_of ev = (case ev of Chunk raw \<Rightarrow> decode_ascii_ignore raw | _ \<Rightarrow> [])"

text \<open>A peer that keeps sending a progress line and never the prompt.\<close>

definition chatty_link :: link where
  "chatty_link i = Chunk ''SEARCHING...''"

text \<open>A writer that sends every payload.\<close>

definition sound_sink :: sink where
  "sound_sink i = None"

definition chatty_client :: client where
  "chatty_client = \<lparr>reader = Some chatty_link, writer = Some sound_sink, cursor = 0\<rparr>"

text \<open>The result of the loop at the event that ends it, after the chunks read so far.\<close>

definition finish :: "read_event \<Rightarrow> string list \<Rightarrow> py_error + string" where
  "finish ev chunks =
     (case ev of
        Timeout \<Rightarrow> Inl TimeoutError
      | Fault e \<Rightarrow> Inl e
      | Chunk raw \<Rightarrow>
          if raw = [] then Inl (ConnectionError SOCKET_CLOSED)
          else Inr (concat (chunks @ [decode_ascii_ignore raw])))"

definition demo_client :: "read_event list \<Rightarrow> client" where
  "demo_client evs = \<lparr>reader = Some (replay evs Timeout), writer = Some sound_sink, cursor = 0\<rparr>"

text \<open>A connection that is lost: the payload is not sent, \<^verbatim>\<open>drain\<close> raises.\<close>

definition CONNECTION_LOST :: string where
  "CONNECTION_LOST = ''Connection lost''"

definition lost_sink :: sink where
  "lost_sink i = Some (ConnectionResetError CONNECTION_LOST)"

definition lost_client :: client where
  "lost_client = \<lparr>reader = Some chatty_link, writer = Some lost_sink, cursor = 0\<rparr>"

section \<open>Live polling\<close>






















section \<open>Evaluation lemmas\<close>

lemmas parser_eval =
  parse_pid_bytes_def py_int_def int_digits_def too_many_digits_def int_max_str_digits_def
  c_strip_def c_isspace_def strip_def lstrip_def rstrip_def py_isspace_def
  strip_radix_prefix_def py_digits_def digit_val_def format_02X_def hex_char_def
  upper_def upper_char_def response_lines_def replace_char_def CR_def LF_def
  line_payload_def startswith_def CONTROL_LINES_def hex_line_def split_ws_def
  split_hex_pairs_def

lemmas decoder_eval =
  decode_metric_def bind_err_def item_def float_of_int_def float_overflow_bound_def
  decode_rpm_def decode_identity_def decode_offset40_def decode_percent_def
  py_round_def round_half_even_def

section \<open>Parser examples\<close>

text \<open>
  C4: \<^verbatim>\<open>parse_pid_bytes("010C", "41 0C 1A F8\r\r>")\<close> returns the payload
  \<open>[0x1A, 0xF8]\<close>, and the decode rule registered for \<^verbatim>\<open>rpm\<close> (whose command is
  \<^verbatim>\<open>010C\<close>) maps that payload to 1726.0.
\<close>

theorem parse_rpm_example:
  "parse_pid_bytes ''010C'' (''41 0C 1A F8'' @ [CR, CR] @ ''>'') = Inr (Some [0x1A, 0xF8])
   \<and> map_option command (map_of PID_TABLE ''rpm'') = Some ''010C''
   \<and> map_option (\<lambda>d. decoder d [0x1A, 0xF8]) (map_of PID_TABLE ''rpm'') = Some (Inr 1726)"
  by (simp add: parser_eval PID_TABLE_def decoder_eval)

text \<open>
  C10: the payload of \<^verbatim>\<open>parse_pid_bytes\<close> need not consist of bytes. For the command
  \<^verbatim>\<open>010D\<close> and the line \<^verbatim>\<open>41 0D 1AF8\<close> (a line with a space, so tokens are split at
  whitespace) the payload is \<open>[0x1AF8]\<close>, above 255, and the one-byte decoder of
  \<^verbatim>\<open>speed_kmh\<close> passes it on: the metric of that tick is 6904.0.
\<close>

theorem parse_payload_not_bytes:
  "parse_pid_bytes ''010D'' ''41 0D 1AF8'' = Inr (Some [0x1AF8])
   \<and> (255 :: int) < 0x1AF8
   \<and> map_option (\<lambda>d. (command d, bytes_needed d)) (map_of PID_TABLE ''speed_kmh'') = Some (''010D'', 1)
   \<and> map_option (\<lambda>d. decode_metric d ''41 0D 1AF8'') (map_of PID_TABLE ''speed_kmh'')
       = Some (Inr (Some 6904))"
  by (simp add: parser_eval PID_TABLE_def decoder_eval)


section \<open>Store updates\<close>

lemma store_items_lookup:
  "store_items m ms k =
     (if ms k = None then None
      else (case map_of (rev m) k of Some v \<Rightarrow> Some v | None \<Rightarrow> ms k))"
proof (induction m arbitrary: ms)
  case Nil
  then show ?case by simp
next
  case (Cons a m)
  obtain key v where a: "a = (key, v)" by (cases a)
  show ?case
    unfolding a store_items.simps Cons.IH
    by (auto simp: map_add_def split: option.splits)
qed

lemma store_items_dom: "dom (store_items m ms) = dom ms"
  by (auto simp: dom_def store_items_lookup split: option.splits if_splits)


lemma map_of_rev_distinct: "distinct (map fst m) \<Longrightarrow> map_of (rev m) = map_of m"
proof (induction m)
  case Nil
  then show ?case by simp
next
  case (Cons a m)
  then have "fst a \<notin> dom (map_of m)" by (simp add: dom_map_of_conv_image_fst)
  then show ?case using Cons
    by (auto simp: map_add_def fun_eq_iff split: option.splits)
qed

lemma store_items_distinct:
  "distinct (map fst m) \<Longrightarrow> store_items m ms k =
     (if ms k = None then None else (case map_of m k of Some v \<Rightarrow> Some v | None \<Rightarrow> ms k))"
  by (simp add: store_items_lookup map_of_rev_distinct)

lemma update_metrics_fields:
  "connected (update_metrics now m c e s) = c"
  "last_error (update_metrics now m c e s) = e"
  "updated_at (update_metrics now m c e s) = Some now"
  "adapter (update_metrics now m c e s) = adapter s"
  "metrics (update_metrics now m c e s) = store_items m (metrics s)"
  by (simp_all add: update_metrics_def)

lemma update_metrics_dom: "dom (metrics (update_metrics now m c e s)) = dom (metrics s)"
  by (simp add: update_metrics_fields store_items_dom)

lemma init_store_metrics:
  "metrics (init_store h p) =
     map_of [(''rpm'', None), (''speed_kmh'', None), (''coolant_c'', None), (''throttle_pct'', None),
             (''engine_load_pct'', None), (''fuel_level_pct'', None), (''intake_c'', None),
             (''battery_v'', None)]"
  by (simp add: init_store_def PID_TABLE_def)

text \<open>
  C6: an \<^verbatim>\<open>update_metrics\<close> call whose mapping mentions one known key \<open>k\<close> (with
  value \<open>v\<close>) and otherwise only strings that are no metric keys. After the call
  \<open>k\<close> holds \<open>v\<close>, every other key holds what it held, the key set is the same
  (the unknown keys were ignored), \<^verbatim>\<open>updated_at\<close> is the clock reading of the call,
  and connectivity and error are as given.
\<close>

theorem update_metrics_single_key:
  assumes known: "metrics s k \<noteq> None"
    and dict: "distinct (map fst m)"
    and entry: "(k, v) \<in> set m"
    and others: "\<forall>k' v'. (k', v') \<in> set m \<and> k' \<noteq> k \<longrightarrow> metrics s k' = None"
  shows "metrics (update_metrics now m c e s) k = Some v
    \<and> (\<forall>k'. k' \<noteq> k \<longrightarrow> metrics (update_metrics now m c e s) k' = metrics s k')
    \<and> dom (metrics (update_metrics now m c e s)) = dom (metrics s)
    \<and> updated_at (update_metrics now m c e s) = Some now
    \<and> connected (update_metrics now m c e s) = c
    \<and> last_error (update_metrics now m c e s) = e
    \<and> adapter (update_metrics now m c e s) = adapter s"
proof -
  have mk: "map_of m k = Some v" using dict entry by simp
  have 1: "metrics (update_metrics now m c e s) k = Some v"
    using known by (simp add: update_metrics_fields store_items_distinct [OF dict] mk)
  have 2: "metrics (update_metrics now m c e s) k' = metrics s k'" if neq: "k' \<noteq> k" for k'
  proof (cases "map_of m k'")
    case None
    then show ?thesis by (simp add: update_metrics_fields store_items_distinct [OF dict])
  next
    case (Some w)
    then have "(k', w) \<in> set m" by (rule map_of_SomeD)
    then have "(k', w) \<in> set m \<and> k' \<noteq> k" using neq by (intro conjI)
    moreover have "(k', w) \<in> set m \<and> k' \<noteq> k \<longrightarrow> metrics s k' = None"
      using others by (elim allE)
    ultimately have "metrics s k' = None" by (rule rev_mp)
    then show ?thesis by (simp add: update_metrics_fields store_items_distinct [OF dict])
  qed
  have 3: "\<forall>k'. k' \<noteq> k \<longrightarrow> metrics (update_metrics now m c e s) k' = metrics s k'"
    by (intro allI impI) (rule 2)
  show ?thesis
    apply (intro conjI)
          apply (rule 1)
         apply (rule 3)
        apply (rule update_metrics_dom)
       apply (rule update_metrics_fields(3))
      apply (rule update_metrics_fields(1))
     apply (rule update_metrics_fields(2))
    apply (rule update_metrics_fields(4))
    done
qed

theorem update_metrics_single_key_witness:
  "metrics (update_metrics ''t1'' [(''rpm'', Some 1726), (''odometer'', Some 5)] True None
      (init_store ''192.168.0.10'' 35000)) ''rpm'' = Some (Some 1726)
   \<and> metrics (update_metrics ''t1'' [(''rpm'', Some 1726), (''odometer'', Some 5)] True None
      (init_store ''192.168.0.10'' 35000)) ''speed_kmh'' = Some None
   \<and> updated_at (update_metrics ''t1'' [(''rpm'', Some 1726), (''odometer'', Some 5)] True None
      (init_store ''192.168.0.10'' 35000)) = Some ''t1''"
proof -
  let ?s = "init_store ''192.168.0.10'' 35000"
  let ?m = "[(''rpm'', Some (1726::real)), (''odometer'', Some 5)]"
  have h1: "metrics ?s ''rpm'' \<noteq> None" by (simp add: init_store_metrics)
  have h2: "distinct (map fst ?m)" by simp
  have h3: "(''rpm'', Some 1726) \<in> set ?m" by simp
  have h4: "\<forall>k' v'. (k', v') \<in> set ?m \<and> k' \<noteq> ''rpm'' \<longrightarrow> metrics ?s k' = None"
    by (simp add: init_store_metrics)
  have h5: "metrics ?s ''speed_kmh'' = Some None" by (simp add: init_store_metrics)
  note t = update_metrics_single_key [OF h1 h2 h3 h4, of "''t1''" True None]
  have a: "metrics (update_metrics ''t1'' ?m True None ?s) ''rpm'' = Some (Some 1726)"
    using t by (rule conjunct1)
  have "\<forall>k'. k' \<noteq> ''rpm'' \<longrightarrow> metrics (update_metrics ''t1'' ?m True None ?s) k' = metrics ?s k'"
    using t by (elim conjE)
  then have b: "metrics (update_metrics ''t1'' ?m True None ?s) ''speed_kmh'' = Some None"
    using h5 by simp
  have c: "updated_at (update_metrics ''t1'' ?m True None ?s) = Some ''t1''"
    using t by (elim conjE)
  show ?thesis using a b c by (intro conjI)
qed


section \<open>Simulation stays within its clamps\<close>

lemma round_half_even_between: "\<lfloor>y\<rfloor> \<le> round_half_even y \<and> round_half_even y \<le> \<lceil>y\<rceil>"
  unfolding round_half_even_def Let_def
  by (auto; linarith)

lemma py_round_bounds:
  assumes "of_int lo \<le> x * 10 ^ n" "x * 10 ^ n \<le> of_int hi"
  shows "of_int lo / 10 ^ n \<le> py_round x n \<and> py_round x n \<le> of_int hi / 10 ^ n"
proof -
  define y where "y = x * 10 ^ n"
  have 1: "\<lfloor>y\<rfloor> \<le> round_half_even y" "round_half_even y \<le> \<lceil>y\<rceil>"
    using round_half_even_between [of y] by simp_all
  have "lo \<le> \<lfloor>y\<rfloor>" using assms(1) by (simp add: le_floor_iff y_def)
  moreover have "\<lceil>y\<rceil> \<le> hi" using assms(2) by (simp add: ceiling_le_iff y_def)
  ultimately have "lo \<le> round_half_even y" "round_half_even y \<le> hi" using 1 by linarith+
  then show ?thesis
    unfolding py_round_def y_def [symmetric] by (simp add: divide_le_cancel)
qed

lemma py_round_clamp:
  assumes "a * 10 ^ n = of_int lo" "b * 10 ^ n = of_int hi" "a \<le> b"
  shows "a \<le> py_round (max a (min b x)) n \<and> py_round (max a (min b x)) n \<le> b"
proof -
  let ?c = "max a (min b x)"
  have c: "a \<le> ?c" "?c \<le> b" using assms(3) by auto
  have "of_int lo \<le> ?c * 10 ^ n" using c(1) assms(1) [symmetric] by (simp add: mult_right_mono)
  moreover have "?c * 10 ^ n \<le> of_int hi" using c(2) assms(2) [symmetric] by (simp add: mult_right_mono)
  ultimately have "of_int lo / 10 ^ n \<le> py_round ?c n \<and> py_round ?c n \<le> of_int hi / 10 ^ n"
    by (rule py_round_bounds)
  moreover have "of_int lo / 10 ^ n = a" using assms(1) [symmetric] by simp
  moreover have "of_int hi / 10 ^ n = b" using assms(2) [symmetric] by simp
  ultimately show ?thesis by simp
qed


lemma sim_metrics_shape:
  "\<exists>a b c d e f g h. sim_metrics t j =
     [(''speed_kmh'', Some (py_round (max 0 (min 220 a)) 1)),
      (''rpm'', Some (py_round (max 700 (min 7000 b)) 1)),
      (''engine_load_pct'', Some (py_round (max 4 (min 100 c)) 1)),
      (''throttle_pct'', Some (py_round (max 2 (min 100 d)) 1)),
      (''coolant_c'', Some (py_round (max 65 (min 110 e)) 1)),
      (''intake_c'', Some (py_round (max 10 (min 55 f)) 1)),
      (''fuel_level_pct'', Some (py_round (max 5 (min 100 g)) 1)),
      (''battery_v'', Some (py_round (max 12.1 (min 14.4 h)) 2))]"
  unfolding sim_metrics_def Let_def by (intro exI, rule refl)

lemma clamp_rounded:
  "0 \<le> py_round (max 0 (min 220 x)) 1 \<and> py_round (max 0 (min 220 x)) 1 \<le> 220"
  "700 \<le> py_round (max 700 (min 7000 x)) 1 \<and> py_round (max 700 (min 7000 x)) 1 \<le> 7000"
  "4 \<le> py_round (max 4 (min 100 x)) 1 \<and> py_round (max 4 (min 100 x)) 1 \<le> 100"
  "2 \<le> py_round (max 2 (min 100 x)) 1 \<and> py_round (max 2 (min 100 x)) 1 \<le> 100"
  "65 \<le> py_round (max 65 (min 110 x)) 1 \<and> py_round (max 65 (min 110 x)) 1 \<le> 110"
  "10 \<le> py_round (max 10 (min 55 x)) 1 \<and> py_round (max 10 (min 55 x)) 1 \<le> 55"
  "5 \<le> py_round (max 5 (min 100 x)) 1 \<and> py_round (max 5 (min 100 x)) 1 \<le> 100"
  "12.1 \<le> py_round (max 12.1 (min 14.4 x)) 2 \<and> py_round (max 12.1 (min 14.4 x)) 2 \<le> 14.4"
  using py_round_clamp [of 0 1 0 220 2200 x] py_round_clamp [of 700 1 7000 7000 70000 x]
    py_round_clamp [of 4 1 40 100 1000 x] py_round_clamp [of 2 1 20 100 1000 x]
    py_round_clamp [of 65 1 650 110 1100 x] py_round_clamp [of 10 1 100 55 550 x]
    py_round_clamp [of 5 1 50 100 1000 x] py_round_clamp [of "12.1" 2 1210 "14.4" 1440 x]
  by simp_all

lemma sim_metrics_in_clamps: "sim_in_clamps (map_of (sim_metrics t j))"
proof -
  obtain a b c d e f g h where s: "sim_metrics t j =
     [(''speed_kmh'', Some (py_round (max 0 (min 220 a)) 1)),
      (''rpm'', Some (py_round (max 700 (min 7000 b)) 1)),
      (''engine_load_pct'', Some (py_round (max 4 (min 100 c)) 1)),
      (''throttle_pct'', Some (py_round (max 2 (min 100 d)) 1)),
      (''coolant_c'', Some (py_round (max 65 (min 110 e)) 1)),
      (''intake_c'', Some (py_round (max 10 (min 55 f)) 1)),
      (''fuel_level_pct'', Some (py_round (max 5 (min 100 g)) 1)),
      (''battery_v'', Some (py_round (max 12.1 (min 14.4 h)) 2))]"
    using sim_metrics_shape by blast
  show ?thesis
    unfolding s sim_in_clamps_def metric_within_def
    using clamp_rounded(1) [of a] clamp_rounded(2) [of b] clamp_rounded(3) [of c]
      clamp_rounded(4) [of d] clamp_rounded(5) [of e] clamp_rounded(6) [of f]
      clamp_rounded(7) [of g] clamp_rounded(8) [of h]
    by simp
qed

lemma simulation_tick_dom: "dom (metrics (snd (simulation_tick inp st))) = dom (metrics (snd st))"
  by (cases inp; cases st) (simp add: simulation_tick_def Let_def update_metrics_dom)

lemma simulation_loop_dom:
  "dom (metrics (snd (simulation_loop ticks st))) = dom (metrics (snd st))"
  by (induction ticks arbitrary: st) (simp_all add: simulation_tick_dom)

lemma simulation_loop_snoc:
  "simulation_loop (ticks @ [tick]) st = simulation_tick tick (simulation_loop ticks st)"
  by (induction ticks arbitrary: st) simp_all

lemma sim_metrics_distinct: "distinct (map fst (sim_metrics t j))"
proof -
  obtain a b c d e f g h where s: "sim_metrics t j =
     [(''speed_kmh'', Some (py_round (max 0 (min 220 a)) 1)),
      (''rpm'', Some (py_round (max 700 (min 7000 b)) 1)),
      (''engine_load_pct'', Some (py_round (max 4 (min 100 c)) 1)),
      (''throttle_pct'', Some (py_round (max 2 (min 100 d)) 1)),
      (''coolant_c'', Some (py_round (max 65 (min 110 e)) 1)),
      (''intake_c'', Some (py_round (max 10 (min 55 f)) 1)),
      (''fuel_level_pct'', Some (py_round (max 5 (min 100 g)) 1)),
      (''battery_v'', Some (py_round (max 12.1 (min 14.4 h)) 2))]"
    using sim_metrics_shape by blast
  show ?thesis unfolding s by simp
qed

lemma within_store_items:
  assumes "distinct (map fst m)" "ms k \<noteq> None" "metric_within (map_of m) k lo hi"
  shows "metric_within (store_items m ms) k lo hi"
  using assms(2,3)
  by (simp add: metric_within_def store_items_distinct [OF assms(1)] split: option.splits)

lemma init_store_keys:
  "dom (metrics (init_store h p)) =
     {''rpm'', ''speed_kmh'', ''coolant_c'', ''throttle_pct'', ''engine_load_pct'',
      ''fuel_level_pct'', ''intake_c'', ''battery_v''}"
  unfolding init_store_metrics by (simp only: dom_map_of_conv_image_fst) simp

lemma simulation_tick_in_clamps:
  assumes "dom (metrics (snd st)) = dom (metrics (init_store h p))"
  shows "sim_in_clamps (metrics (snd (simulation_tick tick st)))"
proof -
  obtain now j where tick: "tick = (now, j)" by (cases tick)
  obtain t s where st: "st = (t, s)" by (cases st)
  let ?m = "sim_metrics (t + 0.15) j"
  have m: "metrics (snd (simulation_tick tick st)) = store_items ?m (metrics s)"
    by (simp add: tick st simulation_tick_def Let_def update_metrics_fields)
  have keys: "metrics s k \<noteq> None"
    if "k \<in> {''rpm'', ''speed_kmh'', ''coolant_c'', ''throttle_pct'', ''engine_load_pct'',
      ''fuel_level_pct'', ''intake_c'', ''battery_v''}" for k
    using assms that unfolding st init_store_keys by (simp only: snd_conv) (metis domIff)
  have c: "sim_in_clamps (map_of ?m)" by (rule sim_metrics_in_clamps)
  show ?thesis
    unfolding m sim_in_clamps_def
    using c [unfolded sim_in_clamps_def]
    by (intro conjI within_store_items [OF sim_metrics_distinct] keys) simp_all
qed

text \<open>
  C8: for every clock value and every jitter, each metric that a simulation tick
  generates lies in its clamp range after rounding; and after any run of at least one
  tick from a fresh store, every metric of the store does.
\<close>

theorem simulated_metrics_in_clamps:
  "sim_in_clamps (map_of (sim_metrics t j))
   \<and> sim_in_clamps (metrics (snd (run_simulation now (ticks @ [tick]) (init_store h p))))"
proof
  show "sim_in_clamps (map_of (sim_metrics t j))" by (rule sim_metrics_in_clamps)
next
  have "dom (metrics (snd (simulation_loop ticks (0, set_connected now True None (init_store h p)))))
      = dom (metrics (init_store h p))"
    by (simp add: simulation_loop_dom set_connected_def)
  then show "sim_in_clamps (metrics (snd (run_simulation now (ticks @ [tick]) (init_store h p))))"
    unfolding run_simulation_def simulation_loop_snoc by (rule simulation_tick_in_clamps)
qed


section \<open>Configuration falls back to its defaults\<close>


subsection \<open>Values that are not numbers\<close>




























section \<open>What a send can do\<close>

lemma read_loop_returns_stops:
  assumes "read_loop l i chunks = Some y"
  shows "\<exists>k\<ge>i. \<not> prompt_less (l k)"
proof (rule read_loop.raw_induct [where P = "\<lambda>l i chunks y. \<exists>k\<ge>i. \<not> prompt_less (l k)"])
  show "read_loop l i chunks = Some y" by fact
next
  fix f :: "link \<Rightarrow> nat \<Rightarrow> string list \<Rightarrow> ((py_error + string) \<times> nat) option"
  fix l i chunks y
  assume IH: "\<And>l i chunks y. f l i chunks = Some y \<Longrightarrow> \<exists>k\<ge>i. \<not> prompt_less (l k)"
  assume body: "(case l i of
        Timeout \<Rightarrow> Some (Inl TimeoutError, Suc i)
      | Fault e \<Rightarrow> Some (Inl e, Suc i)
      | Chunk raw \<Rightarrow>
          if raw = [] then Some (Inl (ConnectionError SOCKET_CLOSED), Suc i)
          else (let text = decode_ascii_ignore raw
                in if CHR ''>'' \<in> set text then Some (Inr (concat (chunks @ [text])), Suc i)
                   else f l (Suc i) (chunks @ [text]))) = Some y"
  show "\<exists>k\<ge>i. \<not> prompt_less (l k)"
  proof (cases "prompt_less (l i)")
    case False
    then show ?thesis by blast
  next
    case True
    then obtain raw where raw: "l i = Chunk raw" "raw \<noteq> []" "CHR ''>'' \<notin> set (decode_ascii_ignore raw)"
      by (auto simp: prompt_less_def split: read_event.splits)
    with body have "f l (Suc i) (chunks @ [decode_ascii_ignore raw]) = Some y"
      by (simp add: Let_def)
    then obtain k where "Suc i \<le> k" "\<not> prompt_less (l k)" using IH by blast
    then show ?thesis by (metis Suc_leD)
  qed
qed

lemma read_loop_never_returns:
  assumes "\<forall>k\<ge>i. prompt_less (l k)"
  shows "read_loop l i chunks = None"
proof (cases "read_loop l i chunks")
  case None
  then show ?thesis .
next
  case (Some y)
  then have "\<exists>k\<ge>i. \<not> prompt_less (l k)" by (rule read_loop_returns_stops)
  with assms show ?thesis by blast
qed

lemma read_loop_stop:
  "\<not> prompt_less (l i) \<Longrightarrow> read_loop l i chunks = Some (finish (l i) chunks, Suc i)"
  by (subst read_loop.simps)
    (auto simp: prompt_less_def finish_def Let_def split: read_event.splits)

lemma read_loop_step:
  "prompt_less (l i) \<Longrightarrow> read_loop l i chunks = read_loop l (Suc i) (chunks @ [text_of (l i)])"
  by (subst read_loop.simps)
    (auto simp: prompt_less_def text_of_def Let_def split: read_event.splits)

lemma read_loop_finishes:
  assumes "i \<le> k" "\<forall>j. i \<le> j \<and> j < k \<longrightarrow> prompt_less (l j)" "\<not> prompt_less (l k)"
  shows "read_loop l i chunks = Some (finish (l k) (chunks @ map (\<lambda>j. text_of (l j)) [i..<k]), Suc k)"
  using assms
proof (induction "k - i" arbitrary: i chunks)
  case 0
  then have "i = k" by simp
  then show ?case using 0(4) by (simp add: read_loop_stop)
next
  case (Suc n)
  then have lt: "i < k" by simp
  then have pl: "prompt_less (l i)" using Suc(4) by simp
  have "read_loop l (Suc i) (chunks @ [text_of (l i)])
      = Some (finish (l k) ((chunks @ [text_of (l i)]) @ map (\<lambda>j. text_of (l j)) [Suc i..<k]), Suc k)"
    using Suc lt by (intro Suc(1)) auto
  then show ?case using lt by (simp add: read_loop_step [of l i, OF pl] upt_conv_Cons)
qed


lemma send_connected:
  assumes "list_all is_ascii cmd" "writer c = Some w" "w (cursor c) = None" "reader c = Some l"
  shows "send c cmd =
     (case read_loop l (cursor c) [] of None \<Rightarrow> None | Some (r, i) \<Rightarrow> Some (r, c\<lparr>cursor := i\<rparr>))"
  using assms by (simp add: send_def read_until_prompt_def is_ascii_def CR_def)

lemma send_finishes:
  assumes "list_all is_ascii cmd" "writer c = Some w" "w (cursor c) = None" "reader c = Some l"
    and "cursor c \<le> k" "\<forall>j. cursor c \<le> j \<and> j < k \<longrightarrow> prompt_less (l j)" "\<not> prompt_less (l k)"
  shows "send c cmd =
     Some (finish (l k) (map (\<lambda>j. text_of (l j)) [cursor c..<k]), c\<lparr>cursor := Suc k\<rparr>)"
  using read_loop_finishes [OF assms(5-7), of "[]"]
  by (simp add: send_connected [OF assms(1-4)])

lemma first_stop:
  fixes i k :: nat
  assumes "i \<le> k" "\<not> prompt_less (l k)"
  shows "\<exists>m\<ge>i. (\<forall>j. i \<le> j \<and> j < m \<longrightarrow> prompt_less (l j)) \<and> \<not> prompt_less (l m)"
proof -
  define P where "P m \<longleftrightarrow> i \<le> m \<and> \<not> prompt_less (l m)" for m
  have "P k" using assms by (simp add: P_def)
  then have least: "P (Least P)" by (rule LeastI)
  have "prompt_less (l j)" if "i \<le> j" "j < Least P" for j
  proof -
    have "\<not> P j" using that(2) by (rule not_less_Least)
    then show ?thesis using that(1) by (simp add: P_def)
  qed
  then show ?thesis using least unfolding P_def by blast
qed

lemma finish_raises:
  assumes "\<not> prompt_less ev" "finish ev chunks = Inl err"
  shows "ev = Timeout \<and> err = TimeoutError \<or> ev = Fault err
    \<or> ev = Chunk [] \<and> err = ConnectionError SOCKET_CLOSED"
  using assms by (cases ev) (auto simp: finish_def prompt_less_def split: if_splits)

lemma finish_returns:
  assumes "\<not> prompt_less ev" "finish ev chunks = Inr text"
  shows "has_prompt ev \<and> text = concat (chunks @ [text_of ev])"
  using assms by (cases ev) (auto simp: finish_def prompt_less_def has_prompt_def text_of_def split: if_splits)

lemma send_returned:
  assumes ascii: "list_all is_ascii cmd"
    and w: "writer c = Some w" "w (cursor c) = None" and l: "reader c = Some l"
    and ret: "send c cmd = Some (r, c')"
  shows "\<exists>k\<ge>cursor c. (\<forall>j. cursor c \<le> j \<and> j < k \<longrightarrow> prompt_less (l j)) \<and> \<not> prompt_less (l k)
          \<and> r = finish (l k) (map (\<lambda>j. text_of (l j)) [cursor c..<k]) \<and> c' = c\<lparr>cursor := Suc k\<rparr>"
proof -
  from ret obtain y where y: "read_loop l (cursor c) [] = Some y"
    by (auto simp: send_connected [OF ascii w l] split: option.splits)
  then have "\<exists>k\<ge>cursor c. \<not> prompt_less (l k)" by (rule read_loop_returns_stops)
  then obtain k0 where "cursor c \<le> k0" "\<not> prompt_less (l k0)" by blast
  then obtain k where k: "cursor c \<le> k" "\<forall>j. cursor c \<le> j \<and> j < k \<longrightarrow> prompt_less (l j)"
      "\<not> prompt_less (l k)"
    using first_stop [of "cursor c" k0 l] by blast
  have "send c cmd = Some (finish (l k) (map (\<lambda>j. text_of (l j)) [cursor c..<k]), c\<lparr>cursor := Suc k\<rparr>)"
    using ascii w l k by (rule send_finishes)
  with ret k show ?thesis by auto
qed

text \<open>
  C3, as amended. \<^verbatim>\<open>send\<close> of an ASCII command fails with the not-connected
  \<^verbatim>\<open>ConnectionError\<close> when the client has no writer; with the exception of the write
  when \<^verbatim>\<open>drain\<close> raises; with the not-connected \<^verbatim>\<open>ConnectionError\<close> when the payload
  is sent and the client has no reader. Otherwise the first read that is not a
  prompt-less non-empty chunk decides: \<^verbatim>\<open>send\<close> fails with \<^verbatim>\<open>TimeoutError\<close> if that
  read timed out, with the exception of the read if it raised, with the closed-socket
  \<^verbatim>\<open>ConnectionError\<close> if it returned no bytes, and returns the decoded text of all
  reads so far if it holds the prompt. If every read returns a prompt-less non-empty
  chunk, \<^verbatim>\<open>send\<close> does not return: the timeout bounds each read, not the exchange.
  These are all the cases: a \<^verbatim>\<open>send\<close> that fails does so for one of the reasons
  above, and one that returns text has read a chunk with the prompt.
\<close>

theorem send_outcome:
  assumes ascii: "list_all is_ascii cmd"
  shows "(writer c = None \<longrightarrow> send c cmd = Some (Inl (ConnectionError NOT_CONNECTED), c))
    \<and> (writer c = Some w \<and> w (cursor c) = Some e \<longrightarrow> send c cmd = Some (Inl e, c))
    \<and> (writer c = Some w \<and> w (cursor c) = None \<and> reader c = None \<longrightarrow>
          send c cmd = Some (Inl (ConnectionError NOT_CONNECTED), c))
    \<and> (writer c = Some w \<and> w (cursor c) = None \<and> reader c = Some l \<and> cursor c \<le> k
          \<and> (\<forall>j. cursor c \<le> j \<and> j < k \<longrightarrow> prompt_less (l j)) \<longrightarrow>
        (l k = Timeout \<longrightarrow> send c cmd = Some (Inl TimeoutError, c\<lparr>cursor := Suc k\<rparr>))
        \<and> (l k = Fault e \<longrightarrow> send c cmd = Some (Inl e, c\<lparr>cursor := Suc k\<rparr>))
        \<and> (l k = Chunk [] \<longrightarrow>
             send c cmd = Some (Inl (ConnectionError SOCKET_CLOSED), c\<lparr>cursor := Suc k\<rparr>))
        \<and> (has_prompt (l k) \<longrightarrow>
             send c cmd = Some (Inr (concat (map (\<lambda>j. text_of (l j)) [cursor c..<Suc k])),
                                c\<lparr>cursor := Suc k\<rparr>)))
    \<and> (writer c = Some w \<and> w (cursor c) = None \<and> reader c = Some l
          \<and> (\<forall>j\<ge>cursor c. prompt_less (l j)) \<longrightarrow> send c cmd = None)
    \<and> (send c cmd = Some (Inl err, c') \<longrightarrow>
          writer c = None \<and> err = ConnectionError NOT_CONNECTED
          \<or> (\<exists>w. writer c = Some w \<and> w (cursor c) = Some err)
          \<or> reader c = None \<and> err = ConnectionError NOT_CONNECTED
          \<or> (\<exists>l k. reader c = Some l \<and> cursor c \<le> k
                \<and> (\<forall>j. cursor c \<le> j \<and> j < k \<longrightarrow> prompt_less (l j))
                \<and> (l k = Timeout \<and> err = TimeoutError \<or> l k = Fault err
                     \<or> l k = Chunk [] \<and> err = ConnectionError SOCKET_CLOSED)))
    \<and> (send c cmd = Some (Inr text, c') \<longrightarrow>
          (\<exists>l k. reader c = Some l \<and> cursor c \<le> k
                \<and> (\<forall>j. cursor c \<le> j \<and> j < k \<longrightarrow> prompt_less (l j)) \<and> has_prompt (l k)
                \<and> text = concat (map (\<lambda>j. text_of (l j)) [cursor c..<Suc k])))"
proof -
  have enc: "list_all is_ascii (cmd @ [CR])" using ascii by (simp add: is_ascii_def CR_def)
  have 1: "writer c = None \<longrightarrow> send c cmd = Some (Inl (ConnectionError NOT_CONNECTED), c)"
    by (simp add: send_def)
  have 2: "writer c = Some w \<and> w (cursor c) = Some e \<longrightarrow> send c cmd = Some (Inl e, c)"
    using enc by (simp add: send_def)
  have 3: "writer c = Some w \<and> w (cursor c) = None \<and> reader c = None \<longrightarrow>
          send c cmd = Some (Inl (ConnectionError NOT_CONNECTED), c)"
    using enc by (simp add: send_def read_until_prompt_def)
  have 4: "writer c = Some w \<and> w (cursor c) = None \<and> reader c = Some l \<and> cursor c \<le> k
          \<and> (\<forall>j. cursor c \<le> j \<and> j < k \<longrightarrow> prompt_less (l j)) \<longrightarrow>
        (l k = Timeout \<longrightarrow> send c cmd = Some (Inl TimeoutError, c\<lparr>cursor := Suc k\<rparr>))
        \<and> (l k = Fault e \<longrightarrow> send c cmd = Some (Inl e, c\<lparr>cursor := Suc k\<rparr>))
        \<and> (l k = Chunk [] \<longrightarrow>
             send c cmd = Some (Inl (ConnectionError SOCKET_CLOSED), c\<lparr>cursor := Suc k\<rparr>))
        \<and> (has_prompt (l k) \<longrightarrow>
             send c cmd = Some (Inr (concat (map (\<lambda>j. text_of (l j)) [cursor c..<Suc k])),
                                c\<lparr>cursor := Suc k\<rparr>))"
  proof (intro impI)
    assume a: "writer c = Some w \<and> w (cursor c) = None \<and> reader c = Some l \<and> cursor c \<le> k
          \<and> (\<forall>j. cursor c \<le> j \<and> j < k \<longrightarrow> prompt_less (l j))"
    then have fin: "\<not> prompt_less (l k) \<Longrightarrow> send c cmd =
        Some (finish (l k) (map (\<lambda>j. text_of (l j)) [cursor c..<k]), c\<lparr>cursor := Suc k\<rparr>)"
      using send_finishes [OF ascii, of c w l k] by simp
    have t: "l k = Timeout \<longrightarrow> send c cmd = Some (Inl TimeoutError, c\<lparr>cursor := Suc k\<rparr>)"
    proof
      assume "l k = Timeout"
      then have "\<not> prompt_less (l k)" "finish (l k) (map (\<lambda>j. text_of (l j)) [cursor c..<k]) = Inl TimeoutError"
        by (simp_all add: prompt_less_def finish_def)
      then show "send c cmd = Some (Inl TimeoutError, c\<lparr>cursor := Suc k\<rparr>)" using fin by simp
    qed
    have f: "l k = Fault e \<longrightarrow> send c cmd = Some (Inl e, c\<lparr>cursor := Suc k\<rparr>)"
    proof
      assume "l k = Fault e"
      then have "\<not> prompt_less (l k)" "finish (l k) (map (\<lambda>j. text_of (l j)) [cursor c..<k]) = Inl e"
        by (simp_all add: prompt_less_def finish_def)
      then show "send c cmd = Some (Inl e, c\<lparr>cursor := Suc k\<rparr>)" using fin by simp
    qed
    have z: "l k = Chunk [] \<longrightarrow>
             send c cmd = Some (Inl (ConnectionError SOCKET_CLOSED), c\<lparr>cursor := Suc k\<rparr>)"
    proof
      assume "l k = Chunk []"
      then have "\<not> prompt_less (l k)"
        "finish (l k) (map (\<lambda>j. text_of (l j)) [cursor c..<k]) = Inl (ConnectionError SOCKET_CLOSED)"
        by (simp_all add: prompt_less_def finish_def)
      then show "send c cmd = Some (Inl (ConnectionError SOCKET_CLOSED), c\<lparr>cursor := Suc k\<rparr>)"
        using fin by simp
    qed
    have p: "has_prompt (l k) \<longrightarrow>
             send c cmd = Some (Inr (concat (map (\<lambda>j. text_of (l j)) [cursor c..<Suc k])),
                                c\<lparr>cursor := Suc k\<rparr>)"
    proof
      assume "has_prompt (l k)"
      then obtain raw where raw: "l k = Chunk raw" "CHR ''>'' \<in> set (decode_ascii_ignore raw)"
        by (auto simp: has_prompt_def split: read_event.splits)
      then have ne: "raw \<noteq> []" by (auto simp: decode_ascii_ignore_def)
      have "\<not> prompt_less (l k)" using raw by (simp add: prompt_less_def)
      moreover have "finish (l k) (map (\<lambda>j. text_of (l j)) [cursor c..<k])
          = Inr (concat (map (\<lambda>j. text_of (l j)) [cursor c..<Suc k]))"
        using raw ne a by (simp add: finish_def text_of_def)
      ultimately show "send c cmd = Some (Inr (concat (map (\<lambda>j. text_of (l j)) [cursor c..<Suc k])),
                                c\<lparr>cursor := Suc k\<rparr>)"
        using fin by simp
    qed
    show "(l k = Timeout \<longrightarrow> send c cmd = Some (Inl TimeoutError, c\<lparr>cursor := Suc k\<rparr>))
        \<and> (l k = Fault e \<longrightarrow> send c cmd = Some (Inl e, c\<lparr>cursor := Suc k\<rparr>))
        \<and> (l k = Chunk [] \<longrightarrow>
             send c cmd = Some (Inl (ConnectionError SOCKET_CLOSED), c\<lparr>cursor := Suc k\<rparr>))
        \<and> (has_prompt (l k) \<longrightarrow>
             send c cmd = Some (Inr (concat (map (\<lambda>j. text_of (l j)) [cursor c..<Suc k])),
                                c\<lparr>cursor := Suc k\<rparr>))"
      by (intro conjI t f z p)
  qed
  have 5: "writer c = Some w \<and> w (cursor c) = None \<and> reader c = Some l
          \<and> (\<forall>j\<ge>cursor c. prompt_less (l j)) \<longrightarrow> send c cmd = None"
  proof
    assume a: "writer c = Some w \<and> w (cursor c) = None \<and> reader c = Some l
          \<and> (\<forall>j\<ge>cursor c. prompt_less (l j))"
    then have "read_loop l (cursor c) [] = None" by (intro read_loop_never_returns) simp
    then show "send c cmd = None" using a by (simp add: send_connected [OF ascii])
  qed
  have 6: "send c cmd = Some (Inl err, c') \<longrightarrow>
          writer c = None \<and> err = ConnectionError NOT_CONNECTED
          \<or> (\<exists>w. writer c = Some w \<and> w (cursor c) = Some err)
          \<or> reader c = None \<and> err = ConnectionError NOT_CONNECTED
          \<or> (\<exists>l k. reader c = Some l \<and> cursor c \<le> k
                \<and> (\<forall>j. cursor c \<le> j \<and> j < k \<longrightarrow> prompt_less (l j))
                \<and> (l k = Timeout \<and> err = TimeoutError \<or> l k = Fault err
                     \<or> l k = Chunk [] \<and> err = ConnectionError SOCKET_CLOSED))"
  proof
    assume ret: "send c cmd = Some (Inl err, c')"
    show "writer c = None \<and> err = ConnectionError NOT_CONNECTED
          \<or> (\<exists>w. writer c = Some w \<and> w (cursor c) = Some err)
          \<or> reader c = None \<and> err = ConnectionError NOT_CONNECTED
          \<or> (\<exists>l k. reader c = Some l \<and> cursor c \<le> k
                \<and> (\<forall>j. cursor c \<le> j \<and> j < k \<longrightarrow> prompt_less (l j))
                \<and> (l k = Timeout \<and> err = TimeoutError \<or> l k = Fault err
                     \<or> l k = Chunk [] \<and> err = ConnectionError SOCKET_CLOSED))"
    proof (cases "writer c")
      case None
      then show ?thesis using ret by (simp add: send_def)
    next
      case (Some w0)
      note w0 = this
      show ?thesis
      proof (cases "w0 (cursor c)")
        case (Some e0)
        then show ?thesis using ret w0 enc by (simp add: send_def)
      next
        case None
        note sent = this
        show ?thesis
        proof (cases "reader c")
          case None
          then show ?thesis using ret w0 sent enc by (simp add: send_def read_until_prompt_def)
        next
          case (Some l0)
          from send_returned [OF ascii w0 sent Some ret]
          obtain k0 where k0: "cursor c \<le> k0" "\<forall>j. cursor c \<le> j \<and> j < k0 \<longrightarrow> prompt_less (l0 j)"
            "\<not> prompt_less (l0 k0)"
            "Inl err = finish (l0 k0) (map (\<lambda>j. text_of (l0 j)) [cursor c..<k0])"
            by blast
          from finish_raises [OF k0(3) k0(4) [symmetric]]
          have "l0 k0 = Timeout \<and> err = TimeoutError \<or> l0 k0 = Fault err
              \<or> l0 k0 = Chunk [] \<and> err = ConnectionError SOCKET_CLOSED" .
          with Some k0(1,2) show ?thesis by blast
        qed
      qed
    qed
  qed
  have 7: "send c cmd = Some (Inr text, c') \<longrightarrow>
          (\<exists>l k. reader c = Some l \<and> cursor c \<le> k
                \<and> (\<forall>j. cursor c \<le> j \<and> j < k \<longrightarrow> prompt_less (l j)) \<and> has_prompt (l k)
                \<and> text = concat (map (\<lambda>j. text_of (l j)) [cursor c..<Suc k]))"
  proof
    assume ret: "send c cmd = Some (Inr text, c')"
    from ret obtain w0 where w0: "writer c = Some w0"
      by (cases "writer c") (simp_all add: send_def)
    from ret w0 enc have sent: "w0 (cursor c) = None"
      by (cases "w0 (cursor c)") (simp_all add: send_def)
    from ret w0 sent enc obtain l0 where l0: "reader c = Some l0"
      by (cases "reader c") (simp_all add: send_def read_until_prompt_def)
    from send_returned [OF ascii w0 sent l0 ret]
    obtain k0 where k0: "cursor c \<le> k0" "\<forall>j. cursor c \<le> j \<and> j < k0 \<longrightarrow> prompt_less (l0 j)"
      "\<not> prompt_less (l0 k0)"
      "Inr text = finish (l0 k0) (map (\<lambda>j. text_of (l0 j)) [cursor c..<k0])"
      by blast
    from finish_returns [OF k0(3) k0(4) [symmetric]]
    have "has_prompt (l0 k0)" "text = concat (map (\<lambda>j. text_of (l0 j)) [cursor c..<k0] @ [text_of (l0 k0)])"
      by simp_all
    then have "has_prompt (l0 k0) \<and> text = concat (map (\<lambda>j. text_of (l0 j)) [cursor c..<Suc k0])"
      using k0(1) by simp
    with l0 k0(1,2) show "\<exists>l k. reader c = Some l \<and> cursor c \<le> k
                \<and> (\<forall>j. cursor c \<le> j \<and> j < k \<longrightarrow> prompt_less (l j)) \<and> has_prompt (l k)
                \<and> text = concat (map (\<lambda>j. text_of (l j)) [cursor c..<Suc k])"
      by blast
  qed
  show ?thesis by (intro conjI 1 2 3 4 5 6 7)
qed

lemmas client_eval =
  demo_client_def replay_def prompt_less_def has_prompt_def text_of_def decode_ascii_ignore_def
  is_ascii_def sound_sink_def

theorem send_outcome_witness:
  "send (demo_client [Chunk ''41 0C '', Chunk ''1A F8>'']) ''010C''
     = Some (Inr ''41 0C 1A F8>'', (demo_client [Chunk ''41 0C '', Chunk ''1A F8>''])\<lparr>cursor := 2\<rparr>)
   \<and> send (demo_client [Chunk ''41 0C '', Chunk []]) ''010C''
     = Some (Inl (ConnectionError SOCKET_CLOSED), (demo_client [Chunk ''41 0C '', Chunk []])\<lparr>cursor := 2\<rparr>)
   \<and> send (demo_client [Chunk ''41 0C '']) ''010C''
     = Some (Inl TimeoutError, (demo_client [Chunk ''41 0C ''])\<lparr>cursor := 2\<rparr>)
   \<and> send (demo_client [Chunk ''41 0C '', Fault (ConnectionResetError CONNECTION_LOST)]) ''010C''
     = Some (Inl (ConnectionResetError CONNECTION_LOST),
             (demo_client [Chunk ''41 0C '', Fault (ConnectionResetError CONNECTION_LOST)])\<lparr>cursor := 2\<rparr>)
   \<and> send lost_client ''010C'' = Some (Inl (ConnectionResetError CONNECTION_LOST), lost_client)
   \<and> send ((demo_client [])\<lparr>writer := None\<rparr>) ''010C''
     = Some (Inl (ConnectionError NOT_CONNECTED), (demo_client [])\<lparr>writer := None\<rparr>)"
proof -
  have ascii: "list_all is_ascii ''010C''" by (simp add: is_ascii_def)
  let ?e1 = "[Chunk ''41 0C '', Chunk ''1A F8>'']"
  let ?e2 = "[Chunk ''41 0C '', Chunk []]"
  let ?e3 = "[Chunk ''41 0C '']"
  let ?e4 = "[Chunk ''41 0C '', Fault (ConnectionResetError CONNECTION_LOST)]"
  have pre: "writer (demo_client evs) = Some sound_sink \<and> sound_sink (cursor (demo_client evs)) = None
      \<and> reader (demo_client evs) = Some (replay evs Timeout)
      \<and> cursor (demo_client evs) \<le> 1
      \<and> (\<forall>j. cursor (demo_client evs) \<le> j \<and> j < 1 \<longrightarrow> prompt_less (replay evs Timeout j))"
    if "prompt_less (replay evs Timeout 0)" for evs
    using that by (simp add: demo_client_def sound_sink_def)
  have p1: "prompt_less (replay ?e1 Timeout 0)" "prompt_less (replay ?e2 Timeout 0)"
    "prompt_less (replay ?e3 Timeout 0)" "prompt_less (replay ?e4 Timeout 0)"
    by (simp_all add: client_eval)
  note at = send_outcome [OF ascii, THEN conjunct2, THEN conjunct2, THEN conjunct2, THEN conjunct1, THEN mp]
  have a: "send (demo_client ?e1) ''010C''
      = Some (Inr (concat (map (\<lambda>j. text_of (replay ?e1 Timeout j)) [cursor (demo_client ?e1)..<Suc 1])),
              demo_client ?e1\<lparr>cursor := Suc 1\<rparr>)"
    using at [of "demo_client ?e1" sound_sink "replay ?e1 Timeout" 1, OF pre [OF p1(1)],
        THEN conjunct2, THEN conjunct2, THEN conjunct2, THEN mp]
    by (simp add: client_eval)
  have b: "send (demo_client ?e2) ''010C''
      = Some (Inl (ConnectionError SOCKET_CLOSED), (demo_client ?e2)\<lparr>cursor := Suc 1\<rparr>)"
    using at [of "demo_client ?e2" sound_sink "replay ?e2 Timeout" 1, OF pre [OF p1(2)],
        THEN conjunct2, THEN conjunct2, THEN conjunct1, THEN mp]
    by (simp add: client_eval)
  have c: "send (demo_client ?e3) ''010C''
      = Some (Inl TimeoutError, (demo_client ?e3)\<lparr>cursor := Suc 1\<rparr>)"
    using at [of "demo_client ?e3" sound_sink "replay ?e3 Timeout" 1, OF pre [OF p1(3)],
        THEN conjunct1, THEN mp]
    by (simp add: client_eval)
  have r: "send (demo_client ?e4) ''010C''
      = Some (Inl (ConnectionResetError CONNECTION_LOST), (demo_client ?e4)\<lparr>cursor := Suc 1\<rparr>)"
    using at [of "demo_client ?e4" sound_sink "replay ?e4 Timeout" 1 "ConnectionResetError CONNECTION_LOST",
        OF pre [OF p1(4)], THEN conjunct2, THEN conjunct1, THEN mp]
    by (simp add: client_eval)
  have w: "send lost_client ''010C'' = Some (Inl (ConnectionResetError CONNECTION_LOST), lost_client)"
    using send_outcome [OF ascii, of lost_client lost_sink "ConnectionResetError CONNECTION_LOST",
        THEN conjunct2, THEN conjunct1, THEN mp]
    by (simp add: lost_client_def lost_sink_def)
  have d: "send ((demo_client [])\<lparr>writer := None\<rparr>) ''010C''
     = Some (Inl (ConnectionError NOT_CONNECTED), (demo_client [])\<lparr>writer := None\<rparr>)"
    using send_outcome [OF ascii, of "(demo_client [])\<lparr>writer := None\<rparr>", THEN conjunct1, THEN mp]
    by simp
  have two: "Suc 1 = 2" by simp
  show ?thesis
    using a b c r w d unfolding two by (simp add: client_eval numeral_2_eq_2)
qed

text \<open>
  C3 as stated fails in both directions. A connected client whose peer keeps sending
  data without the prompt meets none of the three failure cases (no read is empty,
  none times out, none raises), yet \<^verbatim>\<open>send\<close> returns no text: it never returns. And a
  connected client whose connection is lost fails with the \<^verbatim>\<open>ConnectionResetError\<close>
  of \<^verbatim>\<open>drain\<close> before any read is made, which is none of the three cases either.
\<close>

theorem send_never_returns_counterexample:
  "send chatty_client ''010C'' = None
   \<and> writer chatty_client = Some sound_sink \<and> reader chatty_client = Some chatty_link
   \<and> (\<forall>i. sound_sink i = None)
   \<and> (\<forall>i e. chatty_link i \<noteq> Timeout \<and> chatty_link i \<noteq> Chunk [] \<and> chatty_link i \<noteq> Fault e)
   \<and> send lost_client ''010C'' = Some (Inl (ConnectionResetError CONNECTION_LOST), lost_client)
   \<and> writer lost_client = Some lost_sink \<and> reader lost_client = Some chatty_link"
proof -
  have "\<forall>k\<ge>0. prompt_less (chatty_link k)"
    by (simp add: chatty_link_def prompt_less_def decode_ascii_ignore_def is_ascii_def)
  then have "read_loop chatty_link 0 [] = None" by (rule read_loop_never_returns)
  then have 1: "send chatty_client ''010C'' = None"
    by (simp add: send_def read_until_prompt_def chatty_client_def sound_sink_def is_ascii_def CR_def)
  have 2: "send lost_client ''010C'' = Some (Inl (ConnectionResetError CONNECTION_LOST), lost_client)"
    by (simp add: send_def lost_client_def lost_sink_def is_ascii_def CR_def)
  show ?thesis using 1 2 by (simp add: chatty_client_def chatty_link_def sound_sink_def lost_client_def)
qed

section \<open>A tick of the live poller\<close>














































end
